theory Spec2Isabelle
  imports Main
begin

section \<open>The friendship request router\<close>

text \<open>
  A shallow embedding of \<^verbatim>\<open>src/server/api/routers/friendship-request-router.ts\<close>:
  the two guards \<^verbatim>\<open>canSendFriendshipRequest\<close> and \<^verbatim>\<open>canAnswerFriendshipRequest\<close> and the
  three mutations \<^verbatim>\<open>send\<close>, \<^verbatim>\<open>accept\<close> and \<^verbatim>\<open>decline\<close> of \<^verbatim>\<open>friendshipRequestRouter\<close>.

  The database \<^verbatim>\<open>ctx.db\<close> is passed explicitly and returned updated. Every procedure
  returns the error it threw, if any, together with the database as it is afterwards.
\<close>

subsection \<open>Data model\<close>

text \<open>\<^verbatim>\<open>FriendshipStatusSchema.Values\<close>: the three statuses the router reads and writes.\<close>

datatype FriendshipStatus = requested | accepted | declined

text \<open>
  A row of the table \<^verbatim>\<open>friendships\<close>, with the three columns the router names. The table
  is a list of rows: a row is identified by its position, an update rewrites rows where
  they stand and an insert appends one. Identifiers (\<^verbatim>\<open>IdSchema\<close>) are natural numbers, taken
  as already parsed.
\<close>

record friendship =
  userId :: nat
  friendUserId :: nat
  status :: FriendshipStatus

text \<open>The part of \<^verbatim>\<open>ctx.db\<close> the router touches: the \<^verbatim>\<open>id\<close> column of \<^verbatim>\<open>users\<close> and the
  table \<^verbatim>\<open>friendships\<close>.\<close>

record db =
  users :: "nat list"
  friendships :: "friendship list"

text \<open>
  The errors a procedure can end with. \<^verbatim>\<open>BAD_REQUEST\<close> is the \<^verbatim>\<open>TRPCError\<close> both guards
  throw. The other two come from the storage layer and are passed on as they are:
  \<^verbatim>\<open>UNIQUE_VIOLATION\<close> when an insert is refused by the unique constraint, and
  \<^verbatim>\<open>STORAGE_FAILURE\<close> when the engine aborts a statement.
\<close>

datatype error = BAD_REQUEST | UNIQUE_VIOLATION | STORAGE_FAILURE

subsection \<open>The query builder\<close>

text \<open>
  The router issues its statements one after the other. The environment of a call is a
  predicate \<open>fl\<close>: \<open>fl k\<close> holds when the storage engine aborts the \<open>k\<close>-th statement
  of the call (counted from 0, the guard's query). \<open>no_faults\<close> is the run on which every
  statement reaches the engine.
\<close>

type_synonym faults = "nat \<Rightarrow> bool"

definition no_faults :: faults where
  "no_faults = (\<lambda>k. False)"

text \<open>\<^verbatim>\<open>selectFrom(..).where(..).limit(1).executeTakeFirst()\<close>: the first row the
  \<^verbatim>\<open>where\<close> clauses keep, if any.\<close>

definition executeTakeFirst :: "('r \<Rightarrow> bool) \<Rightarrow> 'r list \<Rightarrow> 'r option" where
  "executeTakeFirst wh rows = find wh rows"

text \<open>\<^verbatim>\<open>updateTable('friendships').where(..).set({ status }).execute()\<close>: every row
  the \<^verbatim>\<open>where\<close> clauses keep gets the new status; zero matching rows is not an error.\<close>

definition updateTable ::
  "(friendship \<Rightarrow> bool) \<Rightarrow> FriendshipStatus \<Rightarrow> friendship list \<Rightarrow> friendship list" where
  "updateTable wh s rows = map (\<lambda>r. if wh r then r\<lparr>status := s\<rparr> else r) rows"

text \<open>
  Modelled from the spec: the schema of \<^verbatim>\<open>friendships\<close> is not among the sources, so
  whether the table has a unique constraint on \<^verbatim>\<open>(userId, friendUserId)\<close> is the
  parameter \<open>uq\<close>. With the constraint, \<^verbatim>\<open>insertInto('friendships').values(..).execute()\<close>
  is refused when the ordered pair already has a row (the error the comment of
  \<^verbatim>\<open>send\<close> reports for a plain insert after a decline); without it, the row is appended.
\<close>

definition insertInto :: "bool \<Rightarrow> friendship \<Rightarrow> friendship list \<Rightarrow> error + friendship list" where
  "insertInto uq v rows =
     (if uq \<and> list_ex (\<lambda>r. userId r = userId v \<and> friendUserId r = friendUserId v) rows
      then Inl UNIQUE_VIOLATION
      else Inr (rows @ [v]))"

text \<open>
  \<^verbatim>\<open>ctx.db.transaction().execute(cb)\<close>: the callback runs on the table; when it returns,
  its writes are committed, and when it throws, they are rolled back and the error is
  thrown on. The callback is modelled as returning the error it threw, if any, and the
  table as its statements left it.
\<close>

definition transaction ::
  "(friendship list \<Rightarrow> error option \<times> friendship list) \<Rightarrow> db \<Rightarrow> error option \<times> db" where
  "transaction cb d =
     (case cb (friendships d) of
        (None, rows) \<Rightarrow> (None, d\<lparr>friendships := rows\<rparr>)
      | (Some e, rows) \<Rightarrow> (Some e, d))"

subsection \<open>Guards\<close>

text \<open>\<^verbatim>\<open>canSendFriendshipRequest\<close>: the target must be the \<^verbatim>\<open>id\<close> of a row of \<^verbatim>\<open>users\<close>.\<close>

definition canSendFriendshipRequest :: "faults \<Rightarrow> db \<Rightarrow> nat \<Rightarrow> error option" where
  "canSendFriendshipRequest fl d inputFriendUserId =
     (if fl 0 then Some STORAGE_FAILURE
      else case executeTakeFirst (\<lambda>u. u = inputFriendUserId) (users d) of
             None \<Rightarrow> Some BAD_REQUEST
           | Some u \<Rightarrow> None)"

text \<open>\<^verbatim>\<open>canAnswerFriendshipRequest\<close>: there must be a row from the input's user to the
  session's user with status \<^verbatim>\<open>requested\<close>.\<close>

definition canAnswerFriendshipRequest :: "faults \<Rightarrow> db \<Rightarrow> nat \<Rightarrow> nat \<Rightarrow> error option" where
  "canAnswerFriendshipRequest fl d sessionUserId inputFriendUserId =
     (if fl 0 then Some STORAGE_FAILURE
      else case executeTakeFirst
                  (\<lambda>r. userId r = inputFriendUserId \<and> friendUserId r = sessionUserId
                       \<and> status r = requested)
                  (friendships d) of
             None \<Rightarrow> Some BAD_REQUEST
           | Some r \<Rightarrow> None)"

subsection \<open>Mutations\<close>

text \<open>\<^verbatim>\<open>send\<close>: a declined row from the session's user to the target is set back to
  \<^verbatim>\<open>requested\<close>; otherwise a new row is inserted.\<close>

definition send :: "faults \<Rightarrow> bool \<Rightarrow> nat \<Rightarrow> nat \<Rightarrow> db \<Rightarrow> error option \<times> db" where
  "send fl uq sessionUserId inputFriendUserId d =
     (case canSendFriendshipRequest fl d inputFriendUserId of
        Some e \<Rightarrow> (Some e, d)
      | None \<Rightarrow>
          if fl 1 then (Some STORAGE_FAILURE, d)
          else case executeTakeFirst
                      (\<lambda>r. userId r = sessionUserId \<and> friendUserId r = inputFriendUserId
                           \<and> status r = declined)
                      (friendships d) of
                 Some existingDeclinedRequest \<Rightarrow>
                   if fl 2 then (Some STORAGE_FAILURE, d)
                   else (None, d\<lparr>friendships :=
                           updateTable
                             (\<lambda>r. userId r = sessionUserId \<and> friendUserId r = inputFriendUserId
                                  \<and> status r = declined)
                             requested (friendships d)\<rparr>)
               | None \<Rightarrow>
                   if fl 2 then (Some STORAGE_FAILURE, d)
                   else case insertInto uq
                               \<lparr>userId = sessionUserId, friendUserId = inputFriendUserId,
                                status = requested\<rparr>
                               (friendships d) of
                          Inl e \<Rightarrow> (Some e, d)
                        | Inr rows \<Rightarrow> (None, d\<lparr>friendships := rows\<rparr>))"

text \<open>
  The callback of \<^verbatim>\<open>accept\<close>, statement by statement: the update of the row from the
  session's user to the input's user, the lookup of the row from the input's user to the
  session's user, and the insert or update of that row.
\<close>

definition accept_callback ::
  "faults \<Rightarrow> bool \<Rightarrow> nat \<Rightarrow> nat \<Rightarrow> friendship list \<Rightarrow> error option \<times> friendship list" where
  "accept_callback fl uq sessionUserId inputFriendUserId t =
     (if fl 1 then (Some STORAGE_FAILURE, t)
      else
        let t1 = updateTable
                   (\<lambda>r. userId r = sessionUserId \<and> friendUserId r = inputFriendUserId
                        \<and> status r = requested)
                   accepted t
        in if fl 2 then (Some STORAGE_FAILURE, t1)
           else case executeTakeFirst
                       (\<lambda>r. userId r = inputFriendUserId \<and> friendUserId r = sessionUserId) t1 of
                  None \<Rightarrow>
                    if fl 3 then (Some STORAGE_FAILURE, t1)
                    else (case insertInto uq
                                 \<lparr>userId = inputFriendUserId, friendUserId = sessionUserId,
                                  status = accepted\<rparr> t1 of
                            Inl e \<Rightarrow> (Some e, t1)
                          | Inr rows \<Rightarrow> (None, rows))
                | Some reverseFriendship \<Rightarrow>
                    if fl 3 then (Some STORAGE_FAILURE, t1)
                    else (None,
                          updateTable
                            (\<lambda>r. userId r = inputFriendUserId \<and> friendUserId r = sessionUserId
                                 \<and> status r = requested)
                            accepted t1))"

text \<open>\<^verbatim>\<open>accept\<close>: the guard, then the callback inside one transaction.\<close>

definition accept :: "faults \<Rightarrow> bool \<Rightarrow> nat \<Rightarrow> nat \<Rightarrow> db \<Rightarrow> error option \<times> db" where
  "accept fl uq sessionUserId inputFriendUserId d =
     (case canAnswerFriendshipRequest fl d sessionUserId inputFriendUserId of
        Some e \<Rightarrow> (Some e, d)
      | None \<Rightarrow> transaction (accept_callback fl uq sessionUserId inputFriendUserId) d)"

text \<open>\<^verbatim>\<open>decline\<close>: the guard, then one update of the requested row from the input's user
  to the session's user.\<close>

definition decline :: "faults \<Rightarrow> nat \<Rightarrow> nat \<Rightarrow> db \<Rightarrow> error option \<times> db" where
  "decline fl sessionUserId inputFriendUserId d =
     (case canAnswerFriendshipRequest fl d sessionUserId inputFriendUserId of
        Some e \<Rightarrow> (Some e, d)
      | None \<Rightarrow>
          if fl 1 then (Some STORAGE_FAILURE, d)
          else (None, d\<lparr>friendships :=
                  updateTable
                    (\<lambda>r. userId r = inputFriendUserId \<and> friendUserId r = sessionUserId
                         \<and> status r = requested)
                    declined (friendships d)\<rparr>))"

subsection \<open>Vocabulary of the properties\<close>

text \<open>An edge \<open>(u, f, s)\<close>, the rows of an ordered pair, and its number of rows.\<close>

definition edge :: "nat \<Rightarrow> nat \<Rightarrow> FriendshipStatus \<Rightarrow> friendship" where
  "edge u f s = \<lparr>userId = u, friendUserId = f, status = s\<rparr>"

definition rows_of :: "nat \<Rightarrow> nat \<Rightarrow> friendship list \<Rightarrow> friendship list" where
  "rows_of u f rows = filter (\<lambda>r. userId r = u \<and> friendUserId r = f) rows"

subsection \<open>Rows and edges\<close>

lemma edge_eq_iff: "(r = edge u f s) = (userId r = u \<and> friendUserId r = f \<and> status r = s)"
  by (cases r) (auto simp: edge_def)

lemma edge_sel [simp]:
  "userId (edge u f s) = u" "friendUserId (edge u f s) = f" "status (edge u f s) = s"
  by (simp_all add: edge_def)

lemma edge_status_upd [simp]: "(edge u f s)\<lparr>status := s'\<rparr> = edge u f s'"
  by (simp add: edge_def)

lemma edge_collapse [simp]: "edge (userId r) (friendUserId r) (status r) = r"
  by (cases r) (simp add: edge_def)

lemma edge_inject: "(edge u f s = edge u' f' s') = (u = u' \<and> f = f' \<and> s = s')"
  by (auto simp: edge_def)

lemma edge_swap_eq: "(edge u f s = edge f u s') = (u = f \<and> s = s')"
  by (auto simp: edge_def)

lemma edge_status_neq: "s \<noteq> s' \<Longrightarrow> edge u f s \<noteq> edge u' f' s'"
  by (simp add: edge_def)

lemma ex_row_edge:
  "(\<exists>r\<in>set rows. userId r = u \<and> friendUserId r = f \<and> status r = s) = (edge u f s \<in> set rows)"
proof
  assume "\<exists>r\<in>set rows. userId r = u \<and> friendUserId r = f \<and> status r = s"
  then show "edge u f s \<in> set rows" by auto
next
  assume h: "edge u f s \<in> set rows"
  show "\<exists>r\<in>set rows. userId r = u \<and> friendUserId r = f \<and> status r = s"
    by (rule bexI[OF _ h]) simp
qed

subsection \<open>The statements of the query builder, read on sets of rows\<close>

text \<open>A \<^verbatim>\<open>limit(1)\<close> query whose row is only tested for presence is an existence test.\<close>

lemma case_executeTakeFirst:
  "(case executeTakeFirst P xs of None \<Rightarrow> a | Some x \<Rightarrow> b) = (if \<exists>x\<in>set xs. P x then b else a)"
proof (cases "find P xs")
  case None
  then have "\<not> (\<exists>x\<in>set xs. P x)" by (simp add: find_None_iff Bex_def)
  with None show ?thesis by (simp add: executeTakeFirst_def)
next
  case (Some y)
  then have "y \<in> set xs \<and> P y" by (auto simp: find_Some_iff)
  with Some show ?thesis by (auto simp: executeTakeFirst_def)
qed

lemma canAnswer_eq:
  "canAnswerFriendshipRequest fl d B A =
     (if fl 0 then Some STORAGE_FAILURE
      else if edge A B requested \<in> set (friendships d) then None else Some BAD_REQUEST)"
  by (simp add: canAnswerFriendshipRequest_def case_executeTakeFirst ex_row_edge)

lemma canSend_eq:
  "canSendFriendshipRequest fl d T =
     (if fl 0 then Some STORAGE_FAILURE
      else if T \<in> set (users d) then None else Some BAD_REQUEST)"
  by (simp add: canSendFriendshipRequest_def case_executeTakeFirst)

text \<open>An update that selects one edge by its three columns replaces that edge where it
  stands and leaves every other row as it is.\<close>

lemma updateTable_edge:
  "updateTable (\<lambda>r. userId r = u \<and> friendUserId r = f \<and> status r = s) s' rows
   = map (\<lambda>r. if r = edge u f s then edge u f s' else r) rows"
  unfolding updateTable_def
  by (rule map_cong) (auto simp: edge_eq_iff)

lemma list_ex_pair:
  "list_ex (\<lambda>r. userId r = u \<and> friendUserId r = f) rows = (rows_of u f rows \<noteq> [])"
  by (auto simp: list_ex_iff rows_of_def filter_empty_conv)

lemma replace_edge_pair [simp]:
  "userId (if r = edge u f s then edge u f s' else r) = userId r"
  "friendUserId (if r = edge u f s then edge u f s' else r) = friendUserId r"
  by (auto simp: edge_eq_iff)

subsection \<open>The rows of an ordered pair\<close>

lemma rows_of_replace:
  "rows_of u f (map (\<lambda>r. if r = edge a b s then edge a b s' else r) rows)
   = map (\<lambda>r. if r = edge a b s then edge a b s' else r) (rows_of u f rows)"
  by (induction rows) (simp_all add: rows_of_def)

lemma rows_of_replace_other:
  "(u, f) \<noteq> (a, b) \<Longrightarrow>
   rows_of u f (map (\<lambda>r. if r = edge a b s then edge a b s' else r) rows) = rows_of u f rows"
  by (induction rows) (auto simp: rows_of_def edge_eq_iff)

lemma rows_of_append: "rows_of u f (xs @ ys) = rows_of u f xs @ rows_of u f ys"
  by (simp add: rows_of_def)

lemma rows_of_single:
  "rows_of u f [edge a b s] = (if a = u \<and> b = f then [edge a b s] else [])"
  by (simp add: rows_of_def)

lemma edge_in_rows_of: "(edge u f s \<in> set (rows_of u f rows)) = (edge u f s \<in> set rows)"
  by (simp add: rows_of_def)

lemma rows_of_elem: "r \<in> set (rows_of u f rows) \<Longrightarrow> r = edge u f (status r)"
  by (simp add: rows_of_def edge_eq_iff)

text \<open>The positions at which a replacement changes the table are those of the replaced
  edge.\<close>

lemma changed_count:
  "length (filter (\<lambda>(r, r'). r \<noteq> r')
             (zip rows (map (\<lambda>r. if r = edge a b s then edge a b s' else r) rows)))
   = (if s = s' then 0 else length (filter (\<lambda>r. r = edge a b s) rows))"
  by (induction rows) (auto simp: edge_inject)

lemma filter_edge_le:
  "length (filter (\<lambda>r. r = edge a b s) rows) \<le> length (rows_of a b rows)"
  by (induction rows) (auto simp: rows_of_def)

lemma filter_edge_pos:
  "edge a b s \<in> set rows \<Longrightarrow> 0 < length (filter (\<lambda>r. r = edge a b s) rows)"
  by (induction rows) auto

subsection \<open>The mutations, branch by branch\<close>

lemma send_eq:
  "send fl uq A B d =
     (if fl 0 then (Some STORAGE_FAILURE, d)
      else if B \<notin> set (users d) then (Some BAD_REQUEST, d)
      else if fl 1 \<or> fl 2 then (Some STORAGE_FAILURE, d)
      else if edge A B declined \<in> set (friendships d)
        then (None, d\<lparr>friendships :=
                       map (\<lambda>r. if r = edge A B declined then edge A B requested else r)
                         (friendships d)\<rparr>)
      else if uq \<and> rows_of A B (friendships d) \<noteq> [] then (Some UNIQUE_VIOLATION, d)
      else (None, d\<lparr>friendships := friendships d @ [edge A B requested]\<rparr>))"
  by (simp add: send_def canSend_eq case_executeTakeFirst ex_row_edge updateTable_edge
      insertInto_def list_ex_pair edge_def[symmetric])

text \<open>
  Once the guard of \<^verbatim>\<open>accept\<close> has passed, the lookup inside the transaction finds the
  row the guard found, so the insert is never reached: the callback is two updates, the
  first of the requested edge from the session's user to the input's user, the second of
  the requested edge from the input's user to the session's user.
\<close>

lemma accept_after_guard:
  assumes "edge A B requested \<in> set (friendships d)"
  shows "accept no_faults uq B A d =
    (None, d\<lparr>friendships :=
              map (\<lambda>r. if r = edge A B requested then edge A B accepted else r)
                (map (\<lambda>r. if r = edge B A requested then edge B A accepted else r)
                   (friendships d))\<rparr>)"
proof -
  let ?g1 = "\<lambda>r. if r = edge B A requested then edge B A accepted else r"
  have m: "?g1 (edge A B requested) \<in> set (map ?g1 (friendships d))"
    unfolding set_map using assms by (rule imageI)
  have "\<exists>r\<in>set (map ?g1 (friendships d)). userId r = A \<and> friendUserId r = B"
    by (rule bexI[OF _ m]) (simp only: replace_edge_pair edge_sel simp_thms)
  then show ?thesis using assms
    by (simp add: accept_def canAnswer_eq transaction_def accept_callback_def no_faults_def
       updateTable_edge case_executeTakeFirst Let_def)
qed

lemma accept_forward_row:
  "(if (if edge A B requested = edge B A requested then edge B A accepted
        else edge A B requested) = edge A B requested
    then edge A B accepted
    else (if edge A B requested = edge B A requested then edge B A accepted
          else edge A B requested)) = edge A B accepted"
  by (cases "A = B") (simp_all add: edge_swap_eq edge_inject)

lemma accept_reverse_row:
  "(if edge B A accepted = edge A B requested then edge A B accepted else edge B A accepted)
   = edge B A accepted"
  by (simp add: edge_swap_eq)

text \<open>Without the unique constraint the insert of \<^verbatim>\<open>send\<close> is never refused, and a
  second send of the same request appends a second row.\<close>

lemma send_twice_without_unique_constraint:
  "friendships (snd (send no_faults False 1 2
      (snd (send no_faults False 1 2 \<lparr>users = [1, 2], friendships = []\<rparr>))))
   = [edge 1 2 requested, edge 1 2 requested]"
  by (simp add: send_eq no_faults_def rows_of_def edge_inject)

section \<open>Properties of \<^verbatim>\<open>send\<close>\<close>

text \<open>
  C2. On a table with the unique constraint on \<open>(userId, friendUserId)\<close>: for an
  existing target \<open>B\<close>, from a state where the pair \<open>(A, B)\<close> has at most one row and
  none with status accepted, two sends by \<open>A\<close> to \<open>B\<close> in succession leave exactly one
  row for the pair, \<open>(A, B, requested)\<close>; and no call to \<^verbatim>\<open>send\<close>, whatever its
  outcome, changes the number of rows of an ordered pair \<open>(u, f)\<close> that already has a
  row, whatever the status of that row.
\<close>

theorem send_no_second_row:
  assumes "uq"
  shows "(B \<in> set (users d) \<and> length (rows_of A B (friendships d)) \<le> 1
            \<and> edge A B accepted \<notin> set (friendships d)
          \<longrightarrow> rows_of A B (friendships (snd (send no_faults uq A B
                                  (snd (send no_faults uq A B d)))))
                = [edge A B requested])
         \<and> (rows_of u f (friendships d) \<noteq> []
          \<longrightarrow> length (rows_of u f (friendships (snd (send fl uq A' B' d))))
                = length (rows_of u f (friendships d)))"
proof (intro conjI impI)
  assume h: "B \<in> set (users d) \<and> length (rows_of A B (friendships d)) \<le> 1
            \<and> edge A B accepted \<notin> set (friendships d)"
  let ?R = "rows_of A B (friendships d)"
  have mem: "\<And>s. (edge A B s \<in> set (friendships d)) = (edge A B s \<in> set ?R)"
    by (simp add: edge_in_rows_of)
  consider "?R = []" | r where "?R = [r]"
    using h by (cases ?R) auto
  then show "rows_of A B (friendships (snd (send no_faults uq A B
                 (snd (send no_faults uq A B d))))) = [edge A B requested]"
  proof cases
    case 1
    then show ?thesis using h assms
      by (simp add: send_eq no_faults_def mem rows_of_append rows_of_single
          edge_in_rows_of[symmetric] edge_inject)
  next
    case 2
    then have "r = edge A B (status r)"
      using rows_of_elem[of r A B "friendships d"] by simp
    moreover have "status r \<noteq> accepted"
      using h 2 calculation by (auto simp: mem)
    ultimately have "r = edge A B requested \<or> r = edge A B declined"
      by (cases "status r") auto
    then show ?thesis
    proof
      assume "r = edge A B requested"
      then show ?thesis using 2 h assms
        by (simp add: send_eq no_faults_def mem edge_inject)
    next
      assume "r = edge A B declined"
      then show ?thesis using 2 h assms
        by (simp add: send_eq no_faults_def mem rows_of_replace edge_in_rows_of[symmetric]
            edge_inject)
    qed
  qed
next
  assume ne: "rows_of u f (friendships d) \<noteq> []"
  show "length (rows_of u f (friendships (snd (send fl uq A' B' d))))
        = length (rows_of u f (friendships d))"
  proof (cases "A' = u \<and> B' = f")
    case True
    then show ?thesis using ne assms
      by (simp add: send_eq rows_of_replace)
  next
    case False
    then have "rows_of u f [edge A' B' requested] = []"
      by (auto simp: rows_of_single)
    then show ?thesis
      by (simp add: send_eq rows_of_replace rows_of_append)
  qed
qed

theorem send_no_second_row_witness:
  "(2::nat) \<in> set (users \<lparr>users = [1, 2], friendships = [edge 2 1 accepted]\<rparr>)
   \<and> length (rows_of 1 2 (friendships \<lparr>users = [1, 2], friendships = [edge 2 1 accepted]\<rparr>)) \<le> 1
   \<and> edge 1 2 accepted \<notin> set (friendships \<lparr>users = [1, 2], friendships = [edge 2 1 accepted]\<rparr>)
   \<and> rows_of 1 2 (friendships (snd (send no_faults True 1 2
         (snd (send no_faults True 1 2 \<lparr>users = [1, 2], friendships = [edge 2 1 accepted]\<rparr>)))))
       = [edge 1 2 requested]
   \<and> send no_faults True 1 2 \<lparr>users = [1, 2], friendships = [edge 2 1 accepted]\<rparr>
       = (None, \<lparr>users = [1, 2], friendships = [edge 2 1 accepted, edge 1 2 requested]\<rparr>)
   \<and> send no_faults True 1 2
         \<lparr>users = [1, 2], friendships = [edge 2 1 accepted, edge 1 2 requested]\<rparr>
       = (Some UNIQUE_VIOLATION,
          \<lparr>users = [1, 2], friendships = [edge 2 1 accepted, edge 1 2 requested]\<rparr>)
   \<and> rows_of 2 1 (friendships \<lparr>users = [1, 2], friendships = [edge 2 1 accepted]\<rparr>) \<noteq> []
   \<and> length (rows_of 2 1 (friendships (snd (send no_faults True 2 1
         \<lparr>users = [1, 2], friendships = [edge 2 1 accepted]\<rparr>))))
       = length (rows_of 2 1 (friendships \<lparr>users = [1, 2], friendships = [edge 2 1 accepted]\<rparr>))"
proof -
  let ?d = "\<lparr>users = [1, 2], friendships = [edge 2 1 accepted]\<rparr>"
  have h1: "(2::nat) \<in> set (users ?d) \<and> length (rows_of 1 2 (friendships ?d)) \<le> 1
            \<and> edge 1 2 accepted \<notin> set (friendships ?d)"
    by (simp add: rows_of_def edge_inject)
  have h2: "rows_of 2 1 (friendships ?d) \<noteq> []"
    by (simp add: rows_of_def)
  have s1: "send no_faults True 1 2 ?d
       = (None, \<lparr>users = [1, 2], friendships = [edge 2 1 accepted, edge 1 2 requested]\<rparr>)"
    by (simp add: send_eq no_faults_def rows_of_def edge_inject)
  have s2: "send no_faults True 1 2
         \<lparr>users = [1, 2], friendships = [edge 2 1 accepted, edge 1 2 requested]\<rparr>
       = (Some UNIQUE_VIOLATION,
          \<lparr>users = [1, 2], friendships = [edge 2 1 accepted, edge 1 2 requested]\<rparr>)"
    by (simp add: send_eq no_faults_def rows_of_def edge_inject)
  show ?thesis
    using h1 h2 s1 s2 send_no_second_row [of True 2 ?d 1 2 1 no_faults 2 1]
    by (simp only: simp_thms)
qed

text \<open>
  C3. In every state that contains the edge \<open>(A, B, declined)\<close>, with \<open>B\<close> an existing
  user, a send by \<open>A\<close> to \<open>B\<close> on which no statement is aborted returns without error;
  the table afterwards is the table before with that edge replaced, where it stands, by
  \<open>(A, B, requested)\<close>: no row is added and no declined edge from \<open>A\<close> to \<open>B\<close> is left.
\<close>

theorem send_revives_declined_edge:
  assumes "edge A B declined \<in> set (friendships d)" and "B \<in> set (users d)"
  shows "send no_faults uq A B d =
           (None, d\<lparr>friendships :=
                     map (\<lambda>r. if r = edge A B declined then edge A B requested else r)
                       (friendships d)\<rparr>)
         \<and> length (friendships (snd (send no_faults uq A B d))) = length (friendships d)
         \<and> edge A B declined \<notin> set (friendships (snd (send no_faults uq A B d)))
         \<and> edge A B requested \<in> set (friendships (snd (send no_faults uq A B d)))"
proof -
  let ?g = "\<lambda>r. if r = edge A B declined then edge A B requested else r"
  have run: "send no_faults uq A B d = (None, d\<lparr>friendships := map ?g (friendships d)\<rparr>)"
    using assms
    by (simp add: send_def no_faults_def updateTable_edge canSend_eq case_executeTakeFirst
        ex_row_edge)
  have gone: "edge A B declined \<notin> set (map ?g (friendships d))"
    by (auto simp: edge_inject)
  have "?g (edge A B declined) \<in> ?g ` set (friendships d)"
    using assms(1) by (rule imageI)
  then have there: "edge A B requested \<in> set (map ?g (friendships d))"
    by simp
  show ?thesis
    using gone there by (simp add: run)
qed

theorem send_revives_declined_edge_witness:
  "edge 1 2 declined \<in> set (friendships \<lparr>users = [1, 2], friendships = [edge 1 2 declined, edge 2 1 requested]\<rparr>)
   \<and> (2::nat) \<in> set (users \<lparr>users = [1, 2], friendships = [edge 1 2 declined, edge 2 1 requested]\<rparr>)
   \<and> send no_faults True 1 2 \<lparr>users = [1, 2], friendships = [edge 1 2 declined, edge 2 1 requested]\<rparr>
       = (None, \<lparr>users = [1, 2], friendships = [edge 1 2 requested, edge 2 1 requested]\<rparr>)"
proof -
  let ?d = "\<lparr>users = [1, 2], friendships = [edge 1 2 declined, edge 2 1 requested]\<rparr>"
  have h1: "edge 1 2 declined \<in> set (friendships ?d)" by (simp add: edge_inject)
  have h2: "(2::nat) \<in> set (users ?d)" by (simp add: edge_inject)
  show ?thesis
    using h1 h2 send_revives_declined_edge [OF h1 h2, of True] by (simp add: edge_inject)
qed

text \<open>
  C8. When the target is not the id of a user and the guard's query is not aborted,
  \<^verbatim>\<open>send\<close> ends with the guard's \<^verbatim>\<open>BAD_REQUEST\<close> and the database is unchanged.
\<close>

theorem send_invalid_target:
  assumes "\<not> fl 0" and "T \<notin> set (users d)"
  shows "send fl uq A T d = (Some BAD_REQUEST, d)"
  using assms by (simp add: send_def canSend_eq)

theorem send_invalid_target_witness:
  "\<not> no_faults 0
   \<and> (3::nat) \<notin> set (users \<lparr>users = [1, 2], friendships = [edge 1 2 requested]\<rparr>)
   \<and> send no_faults True 1 3 \<lparr>users = [1, 2], friendships = [edge 1 2 requested]\<rparr>
       = (Some BAD_REQUEST, \<lparr>users = [1, 2], friendships = [edge 1 2 requested]\<rparr>)"
proof -
  let ?d = "\<lparr>users = [1, 2], friendships = [edge 1 2 requested]\<rparr>"
  have h1: "\<not> no_faults 0" by (simp add: no_faults_def)
  have h2: "(3::nat) \<notin> set (users ?d)" by (simp add: edge_inject)
  show ?thesis
    using h1 h2 send_invalid_target [of no_faults 3 ?d True 1] by (simp add: edge_inject)
qed

text \<open>
  C10. \<^verbatim>\<open>send\<close> does not forbid a request to oneself: for an existing user \<open>A\<close> with no
  row from \<open>A\<close> to \<open>A\<close>, a send by \<open>A\<close> to \<open>A\<close> on which no statement is aborted returns
  without error and appends the edge \<open>(A, A, requested)\<close>.
\<close>

theorem send_self_request:
  assumes "A \<in> set (users d)" and "rows_of A A (friendships d) = []"
  shows "send no_faults uq A A d =
           (None, d\<lparr>friendships := friendships d @ [edge A A requested]\<rparr>)"
proof -
  have "edge A A declined \<notin> set (friendships d)"
    using assms(2) by (auto simp: rows_of_def filter_empty_conv)
  then show ?thesis
    using assms
    by (simp add: send_def no_faults_def canSend_eq case_executeTakeFirst ex_row_edge
        insertInto_def list_ex_pair edge_def)
qed

theorem send_self_request_witness:
  "(1::nat) \<in> set (users \<lparr>users = [1, 2], friendships = [edge 1 2 requested]\<rparr>)
   \<and> rows_of 1 1 (friendships \<lparr>users = [1, 2], friendships = [edge 1 2 requested]\<rparr>) = []
   \<and> send no_faults True 1 1 \<lparr>users = [1, 2], friendships = [edge 1 2 requested]\<rparr>
       = (None, \<lparr>users = [1, 2], friendships = [edge 1 2 requested, edge 1 1 requested]\<rparr>)"
proof -
  let ?d = "\<lparr>users = [1, 2], friendships = [edge 1 2 requested]\<rparr>"
  have h1: "(1::nat) \<in> set (users ?d)" by (simp add: edge_inject)
  have h2: "rows_of 1 1 (friendships ?d) = []" by (simp add: rows_of_def)
  show ?thesis
    using h1 h2 send_self_request [OF h1 h2, of True] by (simp add: edge_inject)
qed

section \<open>Properties of \<^verbatim>\<open>accept\<close> and \<^verbatim>\<open>decline\<close>\<close>

text \<open>
  C7. When the table has no edge \<open>(A, B, requested)\<close> and the guard's query is not
  aborted, both \<^verbatim>\<open>accept\<close> and \<^verbatim>\<open>decline\<close> by \<open>B\<close> on \<open>A\<close> end with the guard's
  \<^verbatim>\<open>BAD_REQUEST\<close> and the database is unchanged.
\<close>

theorem answer_without_pending_request:
  assumes "\<not> fl 0" and "edge A B requested \<notin> set (friendships d)"
  shows "accept fl uq B A d = (Some BAD_REQUEST, d)
         \<and> decline fl B A d = (Some BAD_REQUEST, d)"
  using assms by (simp add: accept_def decline_def canAnswer_eq)

theorem answer_without_pending_request_witness:
  "\<not> no_faults 0
   \<and> edge 1 2 requested \<notin> set (friendships \<lparr>users = [1, 2], friendships = [edge 1 2 declined, edge 2 1 requested]\<rparr>)
   \<and> accept no_faults True 2 1 \<lparr>users = [1, 2], friendships = [edge 1 2 declined, edge 2 1 requested]\<rparr>
       = (Some BAD_REQUEST, \<lparr>users = [1, 2], friendships = [edge 1 2 declined, edge 2 1 requested]\<rparr>)
   \<and> decline no_faults 2 1 \<lparr>users = [1, 2], friendships = [edge 1 2 declined, edge 2 1 requested]\<rparr>
       = (Some BAD_REQUEST, \<lparr>users = [1, 2], friendships = [edge 1 2 declined, edge 2 1 requested]\<rparr>)"
proof -
  let ?d = "\<lparr>users = [1, 2], friendships = [edge 1 2 declined, edge 2 1 requested]\<rparr>"
  have h1: "\<not> no_faults 0" by (simp add: no_faults_def)
  have h2: "edge 1 2 requested \<notin> set (friendships ?d)" by (simp add: edge_inject)
  show ?thesis
    using h1 h2 answer_without_pending_request [of no_faults 1 2 ?d True] by (simp add: edge_inject)
qed

text \<open>
  C1. The code at the state that holds only the edge \<open>(1, 2, requested)\<close>: accept by
  user 2 on requester 1 returns without error, the table afterwards is the single row
  \<open>(1, 2, accepted)\<close>, and the pair \<open>(2, 1)\<close> has no row.
\<close>

theorem accept_requested_only_no_reverse_row:
  "accept no_faults uq 2 1 \<lparr>users = [1, 2], friendships = [edge 1 2 requested]\<rparr>
     = (None, \<lparr>users = [1, 2], friendships = [edge 1 2 accepted]\<rparr>)
   \<and> rows_of 2 1 (friendships (snd (accept no_faults uq 2 1
         \<lparr>users = [1, 2], friendships = [edge 1 2 requested]\<rparr>))) = []"
  by (simp add: accept_after_guard rows_of_def edge_inject)

text \<open>
  C4. In every state whose table is exactly the two edges \<open>(A, B, requested)\<close> and
  \<open>(B, A, requested)\<close>, in either order, accept by \<open>B\<close> on requester \<open>A\<close> on which no
  statement is aborted returns without error; the table afterwards is those two rows,
  each with status accepted, and nothing else.
\<close>

theorem accept_mutual_requests:
  assumes "friendships d = [edge A B requested, edge B A requested]
           \<or> friendships d = [edge B A requested, edge A B requested]"
  shows "accept no_faults uq B A d =
           (None, d\<lparr>friendships := map (\<lambda>r. r\<lparr>status := accepted\<rparr>) (friendships d)\<rparr>)
         \<and> length (friendships (snd (accept no_faults uq B A d))) = 2
         \<and> set (friendships (snd (accept no_faults uq B A d)))
             = {edge A B accepted, edge B A accepted}"
proof -
  have "edge A B requested \<in> set (friendships d)"
    using assms by auto
  from accept_after_guard[OF this]
  have run: "accept no_faults uq B A d =
           (None, d\<lparr>friendships := map (\<lambda>r. r\<lparr>status := accepted\<rparr>) (friendships d)\<rparr>)"
    using assms by (elim disjE) (simp_all add: accept_forward_row accept_reverse_row)
  show ?thesis
    using assms by (elim disjE) (auto simp: run)
qed

theorem accept_mutual_requests_witness:
  "(friendships \<lparr>users = [1, 2], friendships = [edge 1 2 requested, edge 2 1 requested]\<rparr>
      = [edge 1 2 requested, edge 2 1 requested]
    \<or> friendships \<lparr>users = [1, 2], friendships = [edge 1 2 requested, edge 2 1 requested]\<rparr>
      = [edge 2 1 requested, edge 1 2 requested])
   \<and> accept no_faults True 2 1
        \<lparr>users = [1, 2], friendships = [edge 1 2 requested, edge 2 1 requested]\<rparr>
      = (None, \<lparr>users = [1, 2], friendships = [edge 1 2 accepted, edge 2 1 accepted]\<rparr>)"
proof -
  let ?d = "\<lparr>users = [1, 2], friendships = [edge 1 2 requested, edge 2 1 requested]\<rparr>"
  have h: "friendships ?d = [edge 1 2 requested, edge 2 1 requested]
           \<or> friendships ?d = [edge 2 1 requested, edge 1 2 requested]"
    by simp
  show ?thesis
    using h accept_mutual_requests [OF h, of True] by simp
qed

text \<open>
  C5. The code at a state where the edge from the actor to the requester is declined.
  User 2 sends to user 1, user 1 declines, user 1 sends to user 2: the table is then
  \<open>(2, 1, declined)\<close>, \<open>(1, 2, requested)\<close>. Accept by user 2 on requester 1 returns
  without error, the edge \<open>(1, 2)\<close> is accepted, and the edge \<open>(2, 1)\<close> is still
  declined: no row \<open>(2, 1, accepted)\<close> exists afterwards. The same holds with the two
  rows in the other order.
\<close>

theorem accept_leaves_declined_reverse_edge:
  "snd (send no_faults True 1 2
      (snd (decline no_faults 1 2
         (snd (send no_faults True 2 1 \<lparr>users = [1, 2], friendships = []\<rparr>)))))
     = \<lparr>users = [1, 2], friendships = [edge 2 1 declined, edge 1 2 requested]\<rparr>
   \<and> accept no_faults True 2 1
       \<lparr>users = [1, 2], friendships = [edge 2 1 declined, edge 1 2 requested]\<rparr>
     = (None, \<lparr>users = [1, 2], friendships = [edge 2 1 declined, edge 1 2 accepted]\<rparr>)
   \<and> accept no_faults True 2 1
       \<lparr>users = [1, 2], friendships = [edge 1 2 requested, edge 2 1 declined]\<rparr>
     = (None, \<lparr>users = [1, 2], friendships = [edge 1 2 accepted, edge 2 1 declined]\<rparr>)
   \<and> edge 2 1 accepted \<notin> set (friendships (snd (accept no_faults True 2 1
         \<lparr>users = [1, 2], friendships = [edge 1 2 requested, edge 2 1 declined]\<rparr>)))"
proof -
  have s1: "send no_faults True 2 1 \<lparr>users = [1, 2], friendships = []\<rparr>
      = (None, \<lparr>users = [1, 2], friendships = [edge 2 1 requested]\<rparr>)"
    by (simp add: send_eq no_faults_def rows_of_def)
  have s2: "decline no_faults 1 2 \<lparr>users = [1, 2], friendships = [edge 2 1 requested]\<rparr>
      = (None, \<lparr>users = [1, 2], friendships = [edge 2 1 declined]\<rparr>)"
    by (simp add: decline_def canAnswer_eq no_faults_def updateTable_edge)
  have s3: "send no_faults True 1 2 \<lparr>users = [1, 2], friendships = [edge 2 1 declined]\<rparr>
      = (None, \<lparr>users = [1, 2], friendships = [edge 2 1 declined, edge 1 2 requested]\<rparr>)"
    by (simp add: send_eq no_faults_def rows_of_def edge_inject)
  have a1: "accept no_faults True 2 1
       \<lparr>users = [1, 2], friendships = [edge 2 1 declined, edge 1 2 requested]\<rparr>
     = (None, \<lparr>users = [1, 2], friendships = [edge 2 1 declined, edge 1 2 accepted]\<rparr>)"
    by (simp add: accept_after_guard edge_inject)
  have a2: "accept no_faults True 2 1
       \<lparr>users = [1, 2], friendships = [edge 1 2 requested, edge 2 1 declined]\<rparr>
     = (None, \<lparr>users = [1, 2], friendships = [edge 1 2 accepted, edge 2 1 declined]\<rparr>)"
    by (simp add: accept_after_guard edge_inject)
  have reach: "snd (send no_faults True 1 2
      (snd (decline no_faults 1 2
         (snd (send no_faults True 2 1 \<lparr>users = [1, 2], friendships = []\<rparr>)))))
     = \<lparr>users = [1, 2], friendships = [edge 2 1 declined, edge 1 2 requested]\<rparr>"
    by (simp only: s1 s2 s3 snd_conv)
  have absent: "edge 2 1 accepted \<notin> set (friendships (snd (accept no_faults True 2 1
         \<lparr>users = [1, 2], friendships = [edge 1 2 requested, edge 2 1 declined]\<rparr>)))"
    by (simp add: accept_after_guard edge_inject)
  show ?thesis
    by (intro conjI) (rule reach, rule a1, rule a2, rule absent)
qed

text \<open>
  C6. Whenever \<^verbatim>\<open>accept\<close> ends with an error, whichever statement failed, the database
  afterwards is the database before: no write of the transaction is kept. When the
  error came after the guard had passed, the pending edge \<open>(A, B, requested)\<close> is
  therefore still in the table.
\<close>

theorem accept_all_or_nothing:
  assumes "fst (accept fl uq B A d) = Some e"
  shows "snd (accept fl uq B A d) = d
         \<and> (\<not> fl 0 \<and> e \<noteq> BAD_REQUEST \<longrightarrow> edge A B requested \<in> set (friendships d))"
  using assms
  by (auto simp: accept_def transaction_def canAnswer_eq
      split: option.splits if_splits prod.splits)

text \<open>The witness: the third statement is aborted after the first update has changed a
  row inside the transaction; the database returned is the one before the call.\<close>

theorem accept_all_or_nothing_witness:
  "fst (accept (\<lambda>k. k = 3) True 2 1
         \<lparr>users = [1, 2], friendships = [edge 1 2 requested, edge 2 1 requested]\<rparr>)
     = Some STORAGE_FAILURE
   \<and> accept_callback (\<lambda>k. k = 3) True 2 1 [edge 1 2 requested, edge 2 1 requested]
     = (Some STORAGE_FAILURE, [edge 1 2 requested, edge 2 1 accepted])
   \<and> snd (accept (\<lambda>k. k = 3) True 2 1
         \<lparr>users = [1, 2], friendships = [edge 1 2 requested, edge 2 1 requested]\<rparr>)
     = \<lparr>users = [1, 2], friendships = [edge 1 2 requested, edge 2 1 requested]\<rparr>
   \<and> edge 1 2 requested \<in> set (friendships
         \<lparr>users = [1, 2], friendships = [edge 1 2 requested, edge 2 1 requested]\<rparr>)"
proof -
  let ?d = "\<lparr>users = [1, 2], friendships = [edge 1 2 requested, edge 2 1 requested]\<rparr>"
  have h: "fst (accept (\<lambda>k. k = 3) True 2 1 ?d) = Some STORAGE_FAILURE"
    by (simp add: accept_def canAnswer_eq transaction_def accept_callback_def
        updateTable_edge case_executeTakeFirst Let_def edge_inject)
  have cb: "accept_callback (\<lambda>k. k = 3) True 2 1 [edge 1 2 requested, edge 2 1 requested]
     = (Some STORAGE_FAILURE, [edge 1 2 requested, edge 2 1 accepted])"
    by (simp add: accept_callback_def updateTable_edge case_executeTakeFirst Let_def
        edge_inject)
  show ?thesis
    using h cb accept_all_or_nothing [OF h] by simp
qed

text \<open>
  C9. When decline by \<open>B\<close> on requester \<open>A\<close> returns without error, the table held the
  edge \<open>(A, B, requested)\<close>, and the database afterwards is the one before with that
  edge replaced, where it stands, by \<open>(A, B, declined)\<close>: every other row, and the table
  of users, is as before. In particular the rows from \<open>B\<close> to \<open>A\<close> are as before, and
  when the pair \<open>(A, B)\<close> has at most one row, exactly one position of the table has
  changed.
\<close>

theorem decline_changes_one_edge:
  assumes "decline fl B A d = (None, d')"
  shows "edge A B requested \<in> set (friendships d)
     \<and> d' = d\<lparr>friendships :=
                map (\<lambda>r. if r = edge A B requested then edge A B declined else r)
                  (friendships d)\<rparr>
     \<and> (A \<noteq> B \<longrightarrow> rows_of B A (friendships d') = rows_of B A (friendships d))
     \<and> (length (rows_of A B (friendships d)) \<le> 1 \<longrightarrow>
          length (filter (\<lambda>(r, r'). r \<noteq> r') (zip (friendships d) (friendships d'))) = 1)"
proof -
  let ?g = "\<lambda>r. if r = edge A B requested then edge A B declined else r"
  have g: "edge A B requested \<in> set (friendships d)"
    and d': "d' = d\<lparr>friendships := map ?g (friendships d)\<rparr>"
    using assms by (simp_all add: decline_def updateTable_edge canAnswer_eq split: if_splits)
  have rev: "A \<noteq> B \<longrightarrow> rows_of B A (friendships d') = rows_of B A (friendships d)"
    by (simp add: d' rows_of_replace_other)
  have one: "length (filter (\<lambda>(r, r'). r \<noteq> r') (zip (friendships d) (friendships d'))) = 1"
    if "length (rows_of A B (friendships d)) \<le> 1"
  proof -
    have "length (filter (\<lambda>r. r = edge A B requested) (friendships d)) \<le> 1"
      using that filter_edge_le[of A B requested "friendships d"] by linarith
    moreover have "0 < length (filter (\<lambda>r. r = edge A B requested) (friendships d))"
      by (rule filter_edge_pos[OF g])
    ultimately have "length (filter (\<lambda>r. r = edge A B requested) (friendships d)) = 1"
      by linarith
    then show ?thesis by (simp add: d' changed_count)
  qed
  show ?thesis using g d' rev one by blast
qed

theorem decline_changes_one_edge_witness:
  "decline no_faults 2 1
     \<lparr>users = [1, 2], friendships = [edge 2 1 requested, edge 1 2 requested]\<rparr>
     = (None, \<lparr>users = [1, 2], friendships = [edge 2 1 requested, edge 1 2 declined]\<rparr>)
   \<and> (1::nat) \<noteq> 2
   \<and> length (rows_of 1 2 (friendships
        \<lparr>users = [1, 2], friendships = [edge 2 1 requested, edge 1 2 requested]\<rparr>)) \<le> 1
   \<and> rows_of 2 1 (friendships
        \<lparr>users = [1, 2], friendships = [edge 2 1 requested, edge 1 2 declined]\<rparr>)
      = [edge 2 1 requested]
   \<and> length (filter (\<lambda>(r, r'). r \<noteq> r')
        (zip (friendships \<lparr>users = [1, 2], friendships = [edge 2 1 requested, edge 1 2 requested]\<rparr>)
             (friendships \<lparr>users = [1, 2], friendships = [edge 2 1 requested, edge 1 2 declined]\<rparr>)))
      = 1"
proof -
  let ?d = "\<lparr>users = [1, 2], friendships = [edge 2 1 requested, edge 1 2 requested]\<rparr>"
  let ?d' = "\<lparr>users = [1, 2], friendships = [edge 2 1 requested, edge 1 2 declined]\<rparr>"
  have h: "decline no_faults 2 1 ?d = (None, ?d')"
    by (simp add: decline_def canAnswer_eq no_faults_def updateTable_edge edge_inject)
  have n: "(1::nat) \<noteq> 2" by simp
  have u: "length (rows_of 1 2 (friendships ?d)) \<le> 1"
    by (simp add: rows_of_def)
  show ?thesis
    using h n u decline_changes_one_edge [OF h] by (simp add: rows_of_def)
qed

end
